theory Spec2Isabelle
  imports Main "HOL-Library.Word" "HOL-Library.AList"
begin

section \<open>Bytes, addresses and undefined behaviour\<close>

text \<open>
  The header \<^verbatim>\<open>estrings.hpp\<close> is embedded function by function. A \<^verbatim>\<open>char\<close> is a byte,
  \<^verbatim>\<open>uint32_t\<close> is a 32-bit word whose arithmetic wraps, and the 31-bit bit-field is a
  31-bit word. A pointer to a string header is an address; address 0 is \<^verbatim>\<open>nullptr\<close>.
  Whatever the C++ standard leaves undefined (reading through a null or dangling pointer,
  reading past a buffer, overflowing a signed counter, reading a field that was never
  written) is a value of the type \<open>error\<close>, and so is the exception \<^verbatim>\<open>std::bad_alloc\<close>
  that \<^verbatim>\<open>new\<close> throws (\<open>AllocationFailure\<close>), so that each such path is a branch of the
  model and not an unspecified result.
\<close>

type_synonym byte = "8 word"

type_synonym addr = nat

datatype error =
    NullDereference
  | DanglingPointer
  | OutOfBounds
  | SignedOverflow
  | UninitialisedRead
  | InvalidFree
  | AllocationFailure

section \<open>The string hash\<close>

text \<open>
  \<^verbatim>\<open>ascii_string_hash(const char* string)\<close>: the loop runs until it meets a NUL byte.
  The arguments of the loop function are the three \<^verbatim>\<open>uint32_t\<close> locals (\<^verbatim>\<open>q = 127\<close> is
  written as the literal), the \<^verbatim>\<open>int\<close> counter \<open>i\<close> and the bytes from \<^verbatim>\<open>string\<close> onwards.
  Running off the buffer before a NUL byte is met is an out-of-bounds read;
  incrementing the counter beyond \<open>INT_MAX\<close> is signed overflow.
\<close>

definition INT_MAX :: int where
  "INT_MAX = 2 ^ 31 - 1"

fun ascii_string_hash_loop :: "32 word \<Rightarrow> 32 word \<Rightarrow> int \<Rightarrow> byte list \<Rightarrow> error + 32 word" where
  "ascii_string_hash_loop h temp i [] = Inl OutOfBounds"
| "ascii_string_hash_loop h temp i (c # string) =
     (if c = 0 then Inr h
      else if i = INT_MAX then Inl SignedOverflow
      else ascii_string_hash_loop (h + temp * ucast c) (temp * 127) (i + 1) string)"

definition ascii_string_hash :: "byte list \<Rightarrow> error + 32 word" where
  "ascii_string_hash string = ascii_string_hash_loop 0 1 0 string"

text \<open>
  The hash as the specification words it: the sum of \<open>bytes[i] * 127^i\<close> modulo \<open>2^32\<close>
  over all the bytes of a sequence. This definition follows the specification, not the
  source; the theorems below compare the two.
\<close>

definition polynomial_hash :: "byte list \<Rightarrow> 32 word" where
  "polynomial_hash bs = sum_list (map (\<lambda>i. ucast (bs ! i) * 127 ^ i) [0..<length bs])"

section \<open>The string header\<close>

text \<open>
  \<^verbatim>\<open>class EstrRawData\<close>: a 1-bit flag, a 31-bit length, the hash and the characters.
  The field \<open>hash\<close> is \<open>None\<close> as long as nothing was written to it: the constructor
  \<^verbatim>\<open>EstrRawData(int)\<close> leaves it uninitialised.
\<close>

record EstrRawData =
  needs_disposing :: bool
  length_field :: "31 word"
  hash :: "32 word option"
  chars :: "byte list"

text \<open>
  The \<^verbatim>\<open>consteval\<close> constructor of \<^verbatim>\<open>EstrRawData<Chars...>\<close>, the static path. The
  member initialisers set the flag to false, the length to \<^verbatim>\<open>sizeof...(Chars) - 1\<close>
  (computed in \<^verbatim>\<open>size_t\<close> and stored into 31 bits) and the characters to the pack; the
  body hashes the characters. The literal operator instantiates it with the characters
  of the literal followed by a NUL.
\<close>

definition EstrRawData_consteval :: "byte list \<Rightarrow> error + EstrRawData" where
  "EstrRawData_consteval Chars =
     (case ascii_string_hash Chars of
        Inl e \<Rightarrow> Inl e
      | Inr v \<Rightarrow>
          Inr \<lparr>needs_disposing = False, length_field = of_nat (length Chars) - 1,
               hash = Some v, chars = Chars\<rparr>)"

definition operator_estr :: "byte list \<Rightarrow> error + EstrRawData" where
  "operator_estr literal = EstrRawData_consteval (literal @ [0])"

text \<open>
  \<^verbatim>\<open>constexpr EstrRawData(int) {}\<close> at \<^verbatim>\<open>Chars = {'\0'}\<close>, which \<^verbatim>\<open>estr_new\<close> runs by
  placement new: the member initialisers only.
\<close>

definition EstrRawData_int :: EstrRawData where
  "EstrRawData_int =
     \<lparr>needs_disposing = False, length_field = 0, hash = None, chars = [0]\<rparr>"

section \<open>Memory\<close>

text \<open>
  The memory holds the live headers, static objects and heap blocks alike, by address.
  \<^verbatim>\<open>new char[n]\<close> either throws \<^verbatim>\<open>std::bad_alloc\<close> or returns an address that is not
  null and not in use. Whether the allocator has the memory that is asked for is not
  decided by the program: it is the parameter \<open>avail\<close> of the allocation and of every
  function that allocates. \<^verbatim>\<open>delete[]\<close> removes a block.
\<close>

type_synonym heap = "(addr \<times> EstrRawData) list"

definition deref :: "heap \<Rightarrow> addr \<Rightarrow> error + EstrRawData" where
  "deref H p =
     (if p = 0 then Inl NullDereference
      else case map_of H p of None \<Rightarrow> Inl DanglingPointer | Some d \<Rightarrow> Inr d)"

definition unused_address :: "heap \<Rightarrow> addr" where
  "unused_address H = Suc (foldr max (map fst H) 0)"

definition new_char_array :: "bool \<Rightarrow> heap \<Rightarrow> error + addr" where
  "new_char_array avail H = (if avail then Inr (unused_address H) else Inl AllocationFailure)"

definition delete_array :: "addr \<Rightarrow> heap \<Rightarrow> error + heap" where
  "delete_array p H =
     (if p = 0 then Inr H
      else if map_of H p = None then Inl InvalidFree
      else Inr (AList.delete p H))"

section \<open>EstrPtr\<close>

datatype EstrPtr = EstrPtr (raw_data: addr)

definition EstrPtr_size :: "EstrPtr \<Rightarrow> heap \<Rightarrow> error + 32 word" where
  "EstrPtr_size p H =
     (case deref H (raw_data p) of Inl e \<Rightarrow> Inl e | Inr d \<Rightarrow> Inr (ucast (length_field d)))"

definition EstrPtr_data :: "EstrPtr \<Rightarrow> heap \<Rightarrow> error + byte list" where
  "EstrPtr_data p H =
     (case deref H (raw_data p) of Inl e \<Rightarrow> Inl e | Inr d \<Rightarrow> Inr (chars d))"

definition EstrPtr_needs_disposing :: "EstrPtr \<Rightarrow> heap \<Rightarrow> error + bool" where
  "EstrPtr_needs_disposing p H =
     (case deref H (raw_data p) of Inl e \<Rightarrow> Inl e | Inr d \<Rightarrow> Inr (needs_disposing d))"

definition EstrPtr_hash :: "EstrPtr \<Rightarrow> heap \<Rightarrow> error + 32 word" where
  "EstrPtr_hash p H =
     (case deref H (raw_data p) of
        Inl e \<Rightarrow> Inl e
      | Inr d \<Rightarrow> (case hash d of None \<Rightarrow> Inl UninitialisedRead | Some v \<Rightarrow> Inr v))"

text \<open>
  \<^verbatim>\<open>view()\<close> is the \<^verbatim>\<open>string_view\<close> \<^verbatim>\<open>{data(), size()}\<close>: the first \<^verbatim>\<open>size()\<close> bytes of the
  buffer. A view longer than the buffer cannot be read.
\<close>

definition EstrPtr_view :: "EstrPtr \<Rightarrow> heap \<Rightarrow> error + byte list" where
  "EstrPtr_view p H =
     (case EstrPtr_data p H of
        Inl e \<Rightarrow> Inl e
      | Inr cs \<Rightarrow>
          (case EstrPtr_size p H of
             Inl e \<Rightarrow> Inl e
           | Inr n \<Rightarrow> if unat n \<le> length cs then Inr (take (unat n) cs) else Inl OutOfBounds))"

definition EstrPtr_destroy :: "EstrPtr \<Rightarrow> heap \<Rightarrow> error + heap" where
  "EstrPtr_destroy p H =
     (case EstrPtr_needs_disposing p H of
        Inl e \<Rightarrow> Inl e
      | Inr b \<Rightarrow> if b then delete_array (raw_data p) H else Inr H)"

text \<open>
  \<^verbatim>\<open>_create_from_raw_data\<close> (the name without its leading underscore) fills a
  temporary handle and returns it by the implicit move constructor of \<^verbatim>\<open>EstrPtr\<close>,
  which copies the pointer.
\<close>

definition create_from_raw_data :: "addr \<Rightarrow> EstrPtr" where
  "create_from_raw_data raw = EstrPtr raw"

section \<open>EstrUniquePtr\<close>

text \<open>
  \<^verbatim>\<open>EstrUniquePtr\<close> derives from \<^verbatim>\<open>EstrPtr\<close> and adds no field. The move constructor
  returns the constructed object and the state it leaves \<^verbatim>\<open>old_ptr\<close> in.
\<close>

type_synonym EstrUniquePtr = EstrPtr

definition EstrUniquePtr_move :: "EstrUniquePtr \<Rightarrow> EstrUniquePtr \<times> EstrUniquePtr" where
  "EstrUniquePtr_move old_ptr = (EstrPtr (raw_data old_ptr), EstrPtr 0)"

text \<open>
  \<^verbatim>\<open>get()\<close>, the destructor \<^verbatim>\<open>get().destroy()\<close>, and \<^verbatim>\<open>claim\<close>, which fills a
  temporary on the stack with the pointer of its argument and returns it through the move
  constructor; the temporary is never destroyed.
\<close>

definition EstrUniquePtr_get :: "EstrUniquePtr \<Rightarrow> EstrPtr" where
  "EstrUniquePtr_get u = create_from_raw_data (raw_data u)"

definition EstrUniquePtr_dtor :: "EstrUniquePtr \<Rightarrow> heap \<Rightarrow> error + heap" where
  "EstrUniquePtr_dtor u H = EstrPtr_destroy (EstrUniquePtr_get u) H"

definition EstrUniquePtr_claim :: "EstrPtr \<Rightarrow> EstrUniquePtr" where
  "EstrUniquePtr_claim ptr = fst (EstrUniquePtr_move (EstrPtr (raw_data ptr)))"

section \<open>Hashing and comparison of handles\<close>

text \<open>\<^verbatim>\<open>std::hash<EstrPtr>\<close> widens the 32-bit hash to \<^verbatim>\<open>size_t\<close>, taken as 64 bits.\<close>

definition std_hash :: "EstrPtr \<Rightarrow> heap \<Rightarrow> error + 64 word" where
  "std_hash string H =
     (case EstrPtr_hash string H of Inl e \<Rightarrow> Inl e | Inr v \<Rightarrow> Inr (ucast v))"

text \<open>
  \<^verbatim>\<open>memcmp\<close> on the first \<open>n\<close> bytes of two buffers: 0 when they agree, else the sign of
  the first difference, the bytes read as unsigned.
\<close>

fun memcmp :: "byte list \<Rightarrow> byte list \<Rightarrow> nat \<Rightarrow> error + int" where
  "memcmp xs ys 0 = Inr 0"
| "memcmp (x # xs) (y # ys) (Suc n) =
     (if x = y then memcmp xs ys n else Inr (if x < y then - 1 else 1))"
| "memcmp xs ys (Suc n) = Inl OutOfBounds"

text \<open>
  \<^verbatim>\<open>operator==\<close>. Beside the result, the model returns how many times \<^verbatim>\<open>memcmp\<close> was
  called on the way.
\<close>

definition operator_eq_counted :: "EstrPtr \<Rightarrow> EstrPtr \<Rightarrow> heap \<Rightarrow> error + (bool \<times> nat)" where
  "operator_eq_counted a b H =
     (case EstrPtr_size a H of Inl e \<Rightarrow> Inl e | Inr sa \<Rightarrow>
      case EstrPtr_size b H of Inl e \<Rightarrow> Inl e | Inr sb \<Rightarrow>
      if sa \<noteq> sb then Inr (False, 0)
      else
      case EstrPtr_hash a H of Inl e \<Rightarrow> Inl e | Inr ha \<Rightarrow>
      case EstrPtr_hash b H of Inl e \<Rightarrow> Inl e | Inr hb \<Rightarrow>
      if ha \<noteq> hb then Inr (False, 0)
      else
      case EstrPtr_data a H of Inl e \<Rightarrow> Inl e | Inr da \<Rightarrow>
      case EstrPtr_data b H of Inl e \<Rightarrow> Inl e | Inr db \<Rightarrow>
      case memcmp da db (unat sa) of Inl e \<Rightarrow> Inl e | Inr r \<Rightarrow> Inr (r = 0, 1))"

definition operator_eq :: "EstrPtr \<Rightarrow> EstrPtr \<Rightarrow> heap \<Rightarrow> error + bool" where
  "operator_eq a b H = map_sum id fst (operator_eq_counted a b H)"

definition operator_neq :: "EstrPtr \<Rightarrow> EstrPtr \<Rightarrow> heap \<Rightarrow> error + bool" where
  "operator_neq a b H = map_sum id Not (operator_eq a b H)"

section \<open>Runtime strings\<close>

text \<open>
  \<^verbatim>\<open>estr_new\<close>. The size handed to \<^verbatim>\<open>new char[]\<close> depends on \<^verbatim>\<open>sizeof(EstrRawData<'\0'>)\<close>
  and \<^verbatim>\<open>offsetof(EstrRawData<'\0'>, chars)\<close>, which the compiler fixes; they are
  parameters here.
\<close>

definition estr_new_alloc_size :: "nat \<Rightarrow> nat \<Rightarrow> nat \<Rightarrow> nat" where
  "estr_new_alloc_size sizeof_raw offsetof_chars n = max sizeof_raw (offsetof_chars + n + 1)"

text \<open>
  The initialisation of the new block: placement new, the two bit-field assignments
  (\<^verbatim>\<open>string.size()\<close> is stored into 31 bits), \<^verbatim>\<open>memcpy\<close> and the terminator, which leave
  the bytes of \<^verbatim>\<open>string\<close> followed by a NUL in the buffer, and the hash of the buffer.
\<close>

definition estr_new_init :: "byte list \<Rightarrow> error + EstrRawData" where
  "estr_new_init string =
     (let d0 = EstrRawData_int;
          d1 = d0\<lparr>needs_disposing := True\<rparr>;
          d2 = d1\<lparr>length_field := of_nat (length string)\<rparr>;
          d3 = d2\<lparr>chars := string @ [0]\<rparr>
      in case ascii_string_hash (chars d3) of
           Inl e \<Rightarrow> Inl e
         | Inr v \<Rightarrow> Inr (d3\<lparr>hash := Some v\<rparr>))"

text \<open>
  \<^verbatim>\<open>estr_new\<close> allocates first; when the allocation throws, nothing else happens.
\<close>

definition estr_new :: "bool \<Rightarrow> byte list \<Rightarrow> heap \<Rightarrow> error + (EstrPtr \<times> heap)" where
  "estr_new avail string H =
     (case new_char_array avail H of
        Inl e \<Rightarrow> Inl e
      | Inr ptr \<Rightarrow>
          (case estr_new_init string of
             Inl e \<Rightarrow> Inl e
           | Inr d \<Rightarrow> Inr (create_from_raw_data ptr, (ptr, d) # H)))"

definition estr_unique_new ::
  "bool \<Rightarrow> byte list \<Rightarrow> heap \<Rightarrow> error + (EstrUniquePtr \<times> heap)" where
  "estr_unique_new avail string H =
     (case estr_new avail string H of
        Inl e \<Rightarrow> Inl e
      | Inr (estr, H') \<Rightarrow> Inr (EstrUniquePtr_claim estr, H'))"

definition EstrUniquePtr_clone ::
  "bool \<Rightarrow> EstrUniquePtr \<Rightarrow> heap \<Rightarrow> error + (EstrUniquePtr \<times> heap)" where
  "EstrUniquePtr_clone avail u H =
     (case EstrPtr_view u H of Inl e \<Rightarrow> Inl e | Inr v \<Rightarrow> estr_unique_new avail v H)"

section \<open>Notions of the specification\<close>

text \<open>
  The content of a header, \<open>bytes[0..length]\<close> in the words of the specification: the
  first \<open>length\<close> bytes of the buffer.
\<close>

definition bytes :: "EstrRawData \<Rightarrow> byte list" where
  "bytes d = take (unat (length_field d)) (chars d)"

text \<open>
  The reference algorithm for equality, as the specification words it: compare the
  lengths, then the cached hashes, then the two byte ranges. The second component counts
  the byte comparisons that were started.
\<close>

definition equals_reference :: "EstrRawData \<Rightarrow> EstrRawData \<Rightarrow> bool \<times> nat" where
  "equals_reference x y =
     (if length_field x \<noteq> length_field y then (False, 0)
      else if hash x \<noteq> hash y then (False, 0)
      else (bytes x = bytes y, 1))"

text \<open>A header built from the byte sequence \<open>s\<close>, by the static or by the heap path.\<close>

definition built_from :: "byte list \<Rightarrow> EstrRawData \<Rightarrow> bool" where
  "built_from s d \<longleftrightarrow> operator_estr s = Inr d \<or> estr_new_init s = Inr d"

text \<open>
  The memories a program can be in: static headers sit at addresses of their own, heap
  headers come from \<^verbatim>\<open>estr_new\<close> and go with \<^verbatim>\<open>destroy\<close>. Moving, claiming and
  borrowing handles do not touch the memory; \<^verbatim>\<open>estr_unique_new\<close>, \<^verbatim>\<open>clone\<close> and the
  destructor act on it through \<^verbatim>\<open>estr_new\<close> and \<^verbatim>\<open>destroy\<close>.
\<close>

inductive reachable :: "heap \<Rightarrow> bool" where
  start: "reachable []"
| static: "reachable H \<Longrightarrow> operator_estr s = Inr d \<Longrightarrow> a \<noteq> 0 \<Longrightarrow> map_of H a = None \<Longrightarrow>
     reachable ((a, d) # H)"
| new: "reachable H \<Longrightarrow> estr_new avail s H = Inr (p, H') \<Longrightarrow> reachable H'"
| destroy: "reachable H \<Longrightarrow> EstrPtr_destroy p H = Inr H' \<Longrightarrow> reachable H'"

section \<open>Words of 31 and 32 bits\<close>

lemma unat_31_bound: "unat (x :: 31 word) < 2 ^ 31"
  using unsigned_less[of x, where 'a=nat] by simp

lemma unat_ucast_31_32: "unat (ucast (x :: 31 word) :: 32 word) = unat x"
proof -
  have "unat x < 2 ^ 32" using unat_31_bound[of x] by simp
  then show ?thesis by (simp add: unsigned_ucast_eq take_bit_nat_eq_self)
qed

lemma ucast_31_32_inj: "(ucast (x :: 31 word) :: 32 word) = ucast y \<longleftrightarrow> x = y"
proof
  assume "(ucast x :: 32 word) = ucast y"
  then have "unat (ucast x :: 32 word) = unat (ucast y :: 32 word)" by simp
  then show "x = y" by (simp only: unat_ucast_31_32 word_unat_eq_iff)
qed simp

lemma unat_of_nat_31: "unat (of_nat n :: 31 word) = n mod 2 ^ 31"
  by (simp add: unat_of_nat)

lemma ucast_of_nat_31_32: "(ucast (of_nat n :: 31 word) :: 32 word) = of_nat (n mod 2 ^ 31)"
proof -
  have "n mod 2 ^ 31 < (2 ^ 32 :: nat)"
    by (rule less_trans[OF mod_less_divisor]) simp_all
  then have "unat (of_nat (n mod 2 ^ 31) :: 32 word) = n mod 2 ^ 31"
    by (simp add: unat_of_nat)
  then have "unat (ucast (of_nat n :: 31 word) :: 32 word) = unat (of_nat (n mod 2 ^ 31) :: 32 word)"
    by (simp add: unat_ucast_31_32 unat_of_nat_31)
  then show ?thesis by (simp only: word_unat_eq_iff)
qed

section \<open>The loop computes the polynomial hash of a NUL-terminated prefix\<close>

lemma takeWhile_nonzero_snoc:
  "takeWhile (\<lambda>c. c \<noteq> 0) (s @ [0::byte]) = takeWhile (\<lambda>c. c \<noteq> 0) s"
  by (induction s) auto

lemma takeWhile_nonzero_id: "0 \<notin> set s \<Longrightarrow> takeWhile (\<lambda>c. c \<noteq> (0::byte)) s = s"
  by (induction s) auto

lemma takeWhile_length_le: "length (takeWhile P s) \<le> length s"
  by (induction s) auto

lemma takeWhile_length_lt: "length s < n \<Longrightarrow> length (takeWhile P s) < n"
  using takeWhile_length_le[of P s] by simp

lemma polynomial_hash_Nil: "polynomial_hash [] = 0"
  by (simp add: polynomial_hash_def)

lemma polynomial_hash_Cons: "polynomial_hash (c # cs) = ucast c + 127 * polynomial_hash cs"
proof -
  have "map (\<lambda>i. ucast ((c # cs) ! i) * (127::32 word) ^ i) [0..<Suc (length cs)]
      = ucast c # map (\<lambda>i. 127 * (ucast (cs ! i) * 127 ^ i)) [0..<length cs]"
    by (simp add: map_upt_Suc del: upt_Suc)
  then show ?thesis
    by (simp add: polynomial_hash_def sum_list_const_mult del: upt_Suc)
qed

text \<open>Whenever the loop returns, it has met a NUL byte and summed the bytes before it.\<close>

lemma ascii_string_hash_loop_Inr:
  "ascii_string_hash_loop h t i cs = Inr v \<Longrightarrow>
     0 \<in> set cs \<and> v = h + t * polynomial_hash (takeWhile (\<lambda>c. c \<noteq> 0) cs)"
proof (induction cs arbitrary: h t i)
  case Nil
  then show ?case by simp
next
  case (Cons c cs)
  show ?case
  proof (cases "c = 0")
    case True
    with Cons.prems show ?thesis by (simp add: polynomial_hash_Nil)
  next
    case False
    with Cons.prems have "i \<noteq> INT_MAX" by (auto split: if_splits)
    with False Cons.prems
    have "ascii_string_hash_loop (h + t * ucast c) (t * 127) (i + 1) cs = Inr v" by simp
    from Cons.IH[OF this] False show ?thesis
      by (simp add: polynomial_hash_Cons algebra_simps)
  qed
qed

text \<open>
  The loop does return when the buffer holds a NUL byte and the counter has room for
  the bytes before it.
\<close>

lemma ascii_string_hash_loop_total:
  "0 \<in> set cs \<Longrightarrow> i + int (length (takeWhile (\<lambda>c. c \<noteq> 0) cs)) \<le> INT_MAX \<Longrightarrow>
     \<exists>v. ascii_string_hash_loop h t i cs = Inr v"
proof (induction cs arbitrary: h t i)
  case Nil
  then show ?case by simp
next
  case (Cons c cs)
  show ?case
  proof (cases "c = 0")
    case True
    then show ?thesis by simp
  next
    case False
    with Cons.prems have "i \<noteq> INT_MAX" "0 \<in> set cs"
      "(i + 1) + int (length (takeWhile (\<lambda>c. c \<noteq> 0) cs)) \<le> INT_MAX" by auto
    with Cons.IH[of "i + 1"] False show ?thesis by simp
  qed
qed

lemma ascii_string_hash_loop_NUL:
  "0 < n \<Longrightarrow> ascii_string_hash_loop h t i (replicate n 0 @ xs) = Inr h"
  by (cases n) simp_all

lemma ascii_string_hash_loop_error:
  "ascii_string_hash_loop h t i cs = Inl e \<Longrightarrow> e = OutOfBounds \<or> e = SignedOverflow"
  by (induction cs arbitrary: h t i) (auto split: if_splits)

lemma ascii_string_hash_Inr:
  "ascii_string_hash cs = Inr v \<Longrightarrow> v = polynomial_hash (takeWhile (\<lambda>c. c \<noteq> 0) cs)"
  using ascii_string_hash_loop_Inr[of 0 1 0 cs v] by (simp add: ascii_string_hash_def)

lemma ascii_string_hash_terminated:
  assumes "length (takeWhile (\<lambda>c. c \<noteq> 0) s) < 2 ^ 31"
  shows "ascii_string_hash (s @ [0]) = Inr (polynomial_hash (takeWhile (\<lambda>c. c \<noteq> 0) s))"
proof -
  have "0 + int (length (takeWhile (\<lambda>c. c \<noteq> 0) (s @ [0]))) \<le> INT_MAX"
    using assms by (simp add: takeWhile_nonzero_snoc INT_MAX_def)
  moreover have "0 \<in> set (s @ [0::byte])" by simp
  ultimately obtain v where "ascii_string_hash_loop 0 1 0 (s @ [0]) = Inr v"
    using ascii_string_hash_loop_total by blast
  then have "ascii_string_hash (s @ [0]) = Inr v" by (simp add: ascii_string_hash_def)
  with ascii_string_hash_Inr[OF this] show ?thesis by (simp add: takeWhile_nonzero_snoc)
qed

section \<open>What the two construction paths build\<close>

lemma estr_new_init_Inr:
  "estr_new_init s = Inr d \<Longrightarrow>
     d = \<lparr>needs_disposing = True, length_field = of_nat (length s),
          hash = Some (polynomial_hash (takeWhile (\<lambda>c. c \<noteq> 0) s)), chars = s @ [0]\<rparr>"
  by (auto simp: estr_new_init_def EstrRawData_int_def takeWhile_nonzero_snoc
           split: sum.splits dest!: ascii_string_hash_Inr)

lemma estr_new_init_total:
  "length (takeWhile (\<lambda>c. c \<noteq> 0) s) < 2 ^ 31 \<Longrightarrow>
     estr_new_init s =
       Inr \<lparr>needs_disposing = True, length_field = of_nat (length s),
            hash = Some (polynomial_hash (takeWhile (\<lambda>c. c \<noteq> 0) s)), chars = s @ [0]\<rparr>"
  by (simp add: estr_new_init_def EstrRawData_int_def ascii_string_hash_terminated)

lemma estr_new_init_NULs:
  "0 < n \<Longrightarrow> estr_new_init (replicate n 0) =
     Inr \<lparr>needs_disposing = True, length_field = of_nat n, hash = Some 0,
          chars = replicate n 0 @ [0]\<rparr>"
  by (simp add: estr_new_init_def EstrRawData_int_def ascii_string_hash_def
      ascii_string_hash_loop_NUL)

lemma operator_estr_Inr:
  "operator_estr s = Inr d \<Longrightarrow>
     d = \<lparr>needs_disposing = False, length_field = of_nat (length s),
          hash = Some (polynomial_hash (takeWhile (\<lambda>c. c \<noteq> 0) s)), chars = s @ [0]\<rparr>"
  by (auto simp: operator_estr_def EstrRawData_consteval_def takeWhile_nonzero_snoc
           split: sum.splits dest!: ascii_string_hash_Inr)

lemma built_from_fields:
  assumes "built_from s d"
  shows "length_field d = of_nat (length s)"
    and "hash d = Some (polynomial_hash (takeWhile (\<lambda>c. c \<noteq> 0) s))"
    and "chars d = s @ [0]"
  using assms by (auto simp: built_from_def dest!: operator_estr_Inr estr_new_init_Inr)

lemma built_from_bytes:
  assumes "built_from s d" and "length s < 2 ^ 31"
  shows "bytes d = s"
  using assms by (simp add: bytes_def built_from_fields unat_of_nat_31)

text \<open>
  The length field holds the size of the content exactly when the content has fewer than
  \<open>2^31\<close> bytes.
\<close>

lemma built_from_length_exact:
  assumes "built_from s d"
  shows "Suc (unat (length_field d)) = length (chars d) \<longleftrightarrow> length s < 2 ^ 31"
proof -
  have "length s mod 2 ^ 31 = length s \<longleftrightarrow> length s < 2 ^ 31"
    by (metis mod_less mod_less_divisor zero_less_numeral zero_less_power)
  then show ?thesis
    by (simp add: built_from_fields[OF assms] unat_of_nat_31)
qed

section \<open>Allocation, access and release\<close>

lemma fresh_bound: "a \<in> fst ` set (H :: heap) \<Longrightarrow> a \<le> foldr max (map fst H) 0"
proof (induction H)
  case Nil
  then show ?case by simp
next
  case (Cons x H)
  show ?case
  proof (cases "a = fst x")
    case True
    then show ?thesis by simp
  next
    case False
    with Cons.prems have "a \<in> fst ` set H" by auto
    from Cons.IH[OF this] show ?thesis by simp
  qed
qed

lemma unused_address_fresh: "map_of H (unused_address H) = None"
proof -
  have "unused_address H \<notin> fst ` set H"
    using fresh_bound[of "unused_address H" H] by (auto simp: new_char_array_def unused_address_def)
  then show ?thesis by (simp add: map_of_eq_None_iff)
qed

lemma unused_address_nonnull: "unused_address H \<noteq> 0"
  by (simp add: new_char_array_def unused_address_def)

lemma deref_Inr: "deref H p = Inr d \<longleftrightarrow> p \<noteq> 0 \<and> map_of H p = Some d"
  by (auto simp: deref_def split: option.splits)

lemma estr_new_Inr:
  "estr_new avail s H = Inr (p, H') \<Longrightarrow>
     \<exists>d. estr_new_init s = Inr d \<and> p = EstrPtr (unused_address H)
        \<and> H' = (unused_address H, d) # H"
  by (auto simp: estr_new_def new_char_array_def create_from_raw_data_def
           split: sum.splits if_splits)

text \<open>
  \<^verbatim>\<open>estr_new\<close> fails with \<open>AllocationFailure\<close> exactly when the allocator has no memory
  for it, whatever the string.
\<close>

lemma estr_new_AllocationFailure:
  "estr_new avail s H = Inl AllocationFailure \<longleftrightarrow> \<not> avail"
proof -
  have "estr_new_init s \<noteq> Inl AllocationFailure"
    by (cases s rule: rev_cases)
       (auto simp: estr_new_init_def EstrRawData_int_def ascii_string_hash_def
             dest: ascii_string_hash_loop_error split: sum.splits)
  then show ?thesis
    by (auto simp: estr_new_def new_char_array_def split: sum.splits)
qed

lemma estr_new_total:
  assumes "length (takeWhile (\<lambda>c. c \<noteq> 0) s) < 2 ^ 31"
  shows "estr_new True s H =
     Inr (EstrPtr (unused_address H),
          (unused_address H,
           \<lparr>needs_disposing = True, length_field = of_nat (length s),
            hash = Some (polynomial_hash (takeWhile (\<lambda>c. c \<noteq> 0) s)), chars = s @ [0]\<rparr>) # H)"
  by (simp add: estr_new_def new_char_array_def estr_new_init_total[OF assms]
      create_from_raw_data_def)

lemma EstrPtr_destroy_Inr:
  "EstrPtr_destroy p H = Inr H' \<Longrightarrow> H' = H \<or> H' = AList.delete (raw_data p) H"
  by (auto simp: EstrPtr_destroy_def delete_array_def split: sum.splits if_splits)

lemma EstrPtr_view_live:
  assumes "deref H (raw_data p) = Inr d" and "unat (length_field d) \<le> length (chars d)"
  shows "EstrPtr_view p H = Inr (bytes d)"
  using assms
  by (simp add: EstrPtr_view_def EstrPtr_data_def EstrPtr_size_def bytes_def unat_ucast_31_32)

text \<open>
  No operation writes to a header that is already there: \<^verbatim>\<open>estr_new\<close> adds a block at
  an unused address, \<^verbatim>\<open>destroy\<close> at most removes one.
\<close>

lemma estr_new_keeps_headers:
  assumes "estr_new avail s H = Inr (p, H')" and "map_of H a = Some d"
  shows "map_of H' a = Some d"
proof -
  from estr_new_Inr[OF assms(1)] obtain d' where "H' = (unused_address H, d') # H" by blast
  moreover from assms(2) unused_address_fresh[of H] have "a \<noteq> unused_address H" by auto
  ultimately show ?thesis using assms(2) by simp
qed

lemma EstrPtr_destroy_keeps_headers:
  assumes "EstrPtr_destroy p H = Inr H'" and "map_of H' a = Some d"
  shows "map_of H a = Some d"
  using EstrPtr_destroy_Inr[OF assms(1)] assms(2)
  by (auto simp: delete_conv' split: if_splits)

lemma reachable_built:
  "reachable H \<Longrightarrow> map_of H a = Some d \<Longrightarrow> \<exists>s. built_from s d"
proof (induction arbitrary: a d rule: reachable.induct)
  case start
  then show ?case by simp
next
  case (static H s d' a')
  then show ?case by (auto simp: built_from_def split: if_splits)
next
  case (new H avail s p H')
  from estr_new_Inr[OF new.hyps(2)] obtain d' where
    "estr_new_init s = Inr d'" "H' = (unused_address H, d') # H" by blast
  with new.prems new.IH show ?case by (auto simp: built_from_def split: if_splits)
next
  case (destroy H p H')
  from EstrPtr_destroy_keeps_headers[OF destroy.hyps(2) destroy.prems]
  show ?case by (rule destroy.IH)
qed

section \<open>Comparison\<close>

lemma memcmp_take:
  "n \<le> length xs \<Longrightarrow> n \<le> length ys \<Longrightarrow>
     \<exists>r. memcmp xs ys n = Inr r \<and> (r = 0 \<longleftrightarrow> take n xs = take n ys)"
proof (induction n arbitrary: xs ys)
  case 0
  then show ?case by simp
next
  case (Suc n)
  from Suc.prems obtain x xs' y ys' where c: "xs = x # xs'" "ys = y # ys'"
    by (cases xs; cases ys) auto
  with Suc.prems have "n \<le> length xs'" "n \<le> length ys'" by simp_all
  from Suc.IH[OF this] c show ?case by simp
qed

lemma memcmp_numeral:
  "memcmp (x # xs) (y # ys) (numeral k) =
     (if x = y then memcmp xs ys (pred_numeral k) else Inr (if x < y then - 1 else 1))"
  by (simp add: numeral_eq_Suc)

lemma operator_eq_counted_live:
  assumes a: "deref H (raw_data a) = Inr x" and b: "deref H (raw_data b) = Inr y"
    and hx: "hash x = Some vx" and hy: "hash y = Some vy"
    and bx: "unat (length_field x) \<le> length (chars x)"
    and bnd: "unat (length_field y) \<le> length (chars y)"
  shows "operator_eq_counted a b H = Inr (equals_reference x y)"
proof (cases "length_field x = length_field y")
  case False
  then show ?thesis
    using a b
    by (simp add: operator_eq_counted_def equals_reference_def EstrPtr_size_def ucast_31_32_inj)
next
  case len: True
  show ?thesis
  proof (cases "vx = vy")
    case False
    then show ?thesis
      using a b hx hy len
      by (simp add: operator_eq_counted_def equals_reference_def EstrPtr_size_def EstrPtr_hash_def)
  next
    case True
    from bx bnd len obtain r where
      "memcmp (chars x) (chars y) (unat (length_field x)) = Inr r"
      "r = 0 \<longleftrightarrow> take (unat (length_field x)) (chars x) = take (unat (length_field x)) (chars y)"
      using memcmp_take[of "unat (length_field x)" "chars x" "chars y"] by auto
    then show ?thesis
      using a b hx hy len True
      by (simp add: operator_eq_counted_def equals_reference_def EstrPtr_size_def EstrPtr_hash_def
          EstrPtr_data_def bytes_def unat_ucast_31_32)
  qed
qed

lemma equals_reference_built:
  assumes "built_from s1 d1" "built_from s2 d2" "length s1 < 2 ^ 31" "length s2 < 2 ^ 31"
  shows "fst (equals_reference d1 d2) = (s1 = s2)"
proof (cases "s1 = s2")
  case True
  with assms show ?thesis
    by (simp add: equals_reference_def built_from_fields built_from_bytes)
next
  case False
  have "length s1 = length s2" if "length_field d1 = length_field d2"
  proof -
    from that have "unat (of_nat (length s1) :: 31 word) = unat (of_nat (length s2) :: 31 word)"
      using assms(1,2) by (simp add: built_from_fields)
    with assms(3,4) show ?thesis by (simp add: unat_of_nat_31)
  qed
  with False assms show ?thesis
    by (auto simp: equals_reference_def built_from_bytes)
qed

section \<open>The stored hash\<close>

text \<open>
  Claim C1, as amended. In every memory that construction and destruction can produce,
  every live header whose length field holds the size of its content (which is so for
  every content of at most \<open>2^31 - 1\<close> bytes) stores the polynomial hash of the bytes of
  its content that precede the first NUL byte; when the content has no NUL byte, that is
  the polynomial hash over all \<open>length\<close> bytes. Headers are never written to after
  their construction, so the equality holds for as long as the header is live.
\<close>

theorem hash_invariant:
  assumes "reachable H" and "map_of H a = Some d"
    and "Suc (unat (length_field d)) = length (chars d)"
  shows "hash d =
           Some (polynomial_hash
                  (if 0 \<in> set (bytes d) then takeWhile (\<lambda>c. c \<noteq> 0) (bytes d) else bytes d))"
proof -
  from reachable_built[OF assms(1,2)] obtain s where s: "built_from s d" by blast
  from assms(3) have "unat (length_field d) = length s"
    by (simp add: built_from_fields[OF s])
  then have "bytes d = s"
    by (simp add: bytes_def built_from_fields[OF s])
  then show ?thesis
    by (simp add: built_from_fields[OF s] takeWhile_nonzero_id)
qed

text \<open>
  The invariant at the memory that \<^verbatim>\<open>estr_new\<close> builds from the three bytes
  \<open>a\<close>, NUL, \<open>b\<close>: the stored hash is that of the single byte \<open>a\<close>.
\<close>

theorem hash_invariant_witness:
  "reachable [(1, \<lparr>needs_disposing = True, length_field = 3, hash = Some 97,
                   chars = [97, 0, 98, 0]\<rparr>)]
   \<and> map_of [(1 :: addr, \<lparr>needs_disposing = True, length_field = 3, hash = Some 97,
                   chars = [97, 0, 98, 0]\<rparr>)] 1
       = Some \<lparr>needs_disposing = True, length_field = 3, hash = Some 97, chars = [97, 0, 98, 0]\<rparr>
   \<and> hash \<lparr>needs_disposing = True, length_field = 3, hash = Some 97, chars = [97, 0, 98, 0]\<rparr>
       = Some (polynomial_hash [97])"
proof -
  let ?d = "\<lparr>needs_disposing = True, length_field = 3, hash = Some 97, chars = [97, 0, 98, 0]\<rparr>"
  have new: "estr_new True [97, 0, 98] [] = Inr (EstrPtr 1, [(1, ?d)])"
    by (simp add: estr_new_def estr_new_init_def EstrRawData_int_def ascii_string_hash_def
        INT_MAX_def new_char_array_def unused_address_def create_from_raw_data_def)
  have r: "reachable [(1, ?d)]"
    by (rule reachable.new[OF reachable.start new])
  have m: "map_of [(1 :: addr, ?d)] 1 = Some ?d" by simp
  have l: "Suc (unat (length_field ?d)) = length (chars ?d)" by simp
  from hash_invariant[OF r m l] r m show ?thesis by (simp add: bytes_def)
qed

text \<open>
  The claim as it was stated, with embedded NUL bytes counted, fails at the same input:
  the content is the three bytes, whose polynomial hash is \<open>97 + 98 * 127^2\<close>, and the
  stored hash is 97. It also fails when the length field cannot hold the size: for the
  bytes \<open>a\<close>, \<open>b\<close> followed by \<open>2^31 - 1\<close> NUL bytes the stored length is 1, the
  content is the byte \<open>a\<close>, and the stored hash is \<open>97 + 98 * 127\<close>, that of \<open>ab\<close>.
\<close>

theorem hash_over_all_bytes_counterexample:
  "estr_new True [97, 0, 98] [] =
     Inr (EstrPtr 1, [(1, \<lparr>needs_disposing = True, length_field = 3, hash = Some 97,
                          chars = [97, 0, 98, 0]\<rparr>)])
   \<and> EstrPtr_view (EstrPtr 1)
       [(1, \<lparr>needs_disposing = True, length_field = 3, hash = Some 97, chars = [97, 0, 98, 0]\<rparr>)]
       = Inr [97, 0, 98]
   \<and> EstrPtr_hash (EstrPtr 1)
       [(1, \<lparr>needs_disposing = True, length_field = 3, hash = Some 97, chars = [97, 0, 98, 0]\<rparr>)]
       = Inr 97
   \<and> polynomial_hash [97, 0, 98] = 1580739
   \<and> estr_new True (97 # 98 # replicate (2 ^ 31 - 1) 0) [] =
     Inr (EstrPtr 1, [(1, \<lparr>needs_disposing = True, length_field = 1, hash = Some 12543,
                          chars = 97 # 98 # replicate (2 ^ 31 - 1) 0 @ [0]\<rparr>)])
   \<and> EstrPtr_view (EstrPtr 1)
        [(1, \<lparr>needs_disposing = True, length_field = 1, hash = Some 12543,
              chars = 97 # 98 # replicate (2 ^ 31 - 1) 0 @ [0]\<rparr>)] = Inr [97]
   \<and> polynomial_hash [97] = 97"
proof -
  have short: "estr_new True [97, 0, 98] [] =
     Inr (EstrPtr 1, [(1, \<lparr>needs_disposing = True, length_field = 3, hash = Some 97,
                          chars = [97, 0, 98, 0]\<rparr>)])
   \<and> EstrPtr_view (EstrPtr 1)
       [(1, \<lparr>needs_disposing = True, length_field = 3, hash = Some 97, chars = [97, 0, 98, 0]\<rparr>)]
       = Inr [97, 0, 98]
   \<and> EstrPtr_hash (EstrPtr 1)
       [(1, \<lparr>needs_disposing = True, length_field = 3, hash = Some 97, chars = [97, 0, 98, 0]\<rparr>)]
       = Inr 97
   \<and> polynomial_hash [97, 0, 98] = 1580739"
    by (simp add: estr_new_def estr_new_init_def EstrRawData_int_def ascii_string_hash_def
        INT_MAX_def new_char_array_def unused_address_def create_from_raw_data_def polynomial_hash_def
        EstrPtr_view_def EstrPtr_data_def EstrPtr_size_def EstrPtr_hash_def deref_def)
  have l: "(of_nat (length (97 # 98 # replicate (2 ^ 31 - 1) (0 :: byte))) :: 31 word) = 1"
    by simp
  have h: "ascii_string_hash ((97 # 98 # replicate (2 ^ 31 - 1) 0) @ [0]) = Inr 12543"
    by (simp add: ascii_string_hash_def INT_MAX_def ascii_string_hash_loop_NUL)
  have 1: "estr_new True (97 # 98 # replicate (2 ^ 31 - 1) 0) [] =
     Inr (EstrPtr 1, [(1, \<lparr>needs_disposing = True, length_field = 1, hash = Some 12543,
                          chars = 97 # 98 # replicate (2 ^ 31 - 1) 0 @ [0]\<rparr>)])"
    using l h
    by (simp add: estr_new_def estr_new_init_def EstrRawData_int_def new_char_array_def unused_address_def
        create_from_raw_data_def)
  have 2: "EstrPtr_view (EstrPtr 1)
        [(1, \<lparr>needs_disposing = True, length_field = 1, hash = Some 12543,
              chars = 97 # 98 # replicate (2 ^ 31 - 1) 0 @ [0]\<rparr>)] = Inr [97]"
    by (simp add: EstrPtr_view_def EstrPtr_data_def EstrPtr_size_def deref_def)
  have 3: "polynomial_hash [97] = 97" by (simp add: polynomial_hash_def)
  from short 1 2 3 show ?thesis by (intro conjI) simp_all
qed

section \<open>Destroying a moved-from handle\<close>

text \<open>
  Claim C2. After a move the source holds the null pointer, and the destination holds
  the pointer the source held. The destructor of the source, however, is not a no-op:
  \<^verbatim>\<open>destroy\<close> asks \<^verbatim>\<open>needs_disposing()\<close>, which reads the flag through the null pointer.
  Here a handle is made for the one-byte string \<open>x\<close>, moved, and its source destroyed;
  the same holds for every handle \<open>u\<close> and every memory \<open>H\<close>.
\<close>

theorem moved_from_destructor_null_dereference:
  "estr_unique_new True [120] [] =
     Inr (EstrPtr 1, [(1, \<lparr>needs_disposing = True, length_field = 1, hash = Some 120,
                          chars = [120, 0]\<rparr>)])
   \<and> EstrUniquePtr_move (EstrPtr 1) = (EstrPtr 1, EstrPtr 0)
   \<and> EstrUniquePtr_dtor (EstrPtr 0)
        [(1, \<lparr>needs_disposing = True, length_field = 1, hash = Some 120, chars = [120, 0]\<rparr>)]
       = Inl NullDereference
   \<and> fst (EstrUniquePtr_move u) = u
   \<and> EstrUniquePtr_dtor (snd (EstrUniquePtr_move u)) H = Inl NullDereference"
  by (simp add: estr_unique_new_def estr_new_def estr_new_init_def EstrRawData_int_def
      ascii_string_hash_def INT_MAX_def new_char_array_def unused_address_def create_from_raw_data_def
      EstrUniquePtr_claim_def EstrUniquePtr_move_def EstrUniquePtr_dtor_def EstrUniquePtr_get_def
      EstrPtr_destroy_def EstrPtr_needs_disposing_def deref_def)

section \<open>Equality decides equality of contents\<close>

text \<open>
  Claim C3, as amended. For all byte sequences \<open>s1\<close> and \<open>s2\<close> of at most \<open>2^31 - 1\<close>
  bytes each, and handles to live headers built from them by the static or by the heap
  path, in any combination, \<^verbatim>\<open>operator==\<close> returns true if and only if \<open>s1\<close> and \<open>s2\<close>
  are the same byte sequence.
\<close>

theorem operator_eq_correct:
  assumes "built_from s1 d1" and "built_from s2 d2"
    and "length s1 < 2 ^ 31" and "length s2 < 2 ^ 31"
    and "deref H (raw_data a) = Inr d1" and "deref H (raw_data b) = Inr d2"
  shows "operator_eq a b H = Inr (s1 = s2)"
proof -
  have "unat (length_field d1) \<le> length (chars d1)" "unat (length_field d2) \<le> length (chars d2)"
    using assms(1-4) by (simp_all add: built_from_fields unat_of_nat_31)
  then have "operator_eq_counted a b H = Inr (equals_reference d1 d2)"
    using assms(1,2,5,6) by (intro operator_eq_counted_live) (simp_all add: built_from_fields)
  then show ?thesis
    using equals_reference_built[OF assms(1-4)] by (simp add: operator_eq_def)
qed

text \<open>
  The static header of \<open>abc\<close> against the heap header of \<open>abd\<close>: not equal.
\<close>

theorem operator_eq_correct_witness:
  "built_from [97, 98, 99]
     \<lparr>needs_disposing = False, length_field = 3, hash = Some 1609314, chars = [97, 98, 99, 0]\<rparr>
   \<and> built_from [97, 98, 100]
     \<lparr>needs_disposing = True, length_field = 3, hash = Some 1625443, chars = [97, 98, 100, 0]\<rparr>
   \<and> length [97, 98, 99 :: byte] < 2 ^ 31 \<and> length [97, 98, 100 :: byte] < 2 ^ 31
   \<and> deref
       [(2, \<lparr>needs_disposing = True, length_field = 3, hash = Some 1625443, chars = [97, 98, 100, 0]\<rparr>),
        (1, \<lparr>needs_disposing = False, length_field = 3, hash = Some 1609314, chars = [97, 98, 99, 0]\<rparr>)]
       (raw_data (EstrPtr 1))
     = Inr \<lparr>needs_disposing = False, length_field = 3, hash = Some 1609314, chars = [97, 98, 99, 0]\<rparr>
   \<and> deref
       [(2, \<lparr>needs_disposing = True, length_field = 3, hash = Some 1625443, chars = [97, 98, 100, 0]\<rparr>),
        (1, \<lparr>needs_disposing = False, length_field = 3, hash = Some 1609314, chars = [97, 98, 99, 0]\<rparr>)]
       (raw_data (EstrPtr 2))
     = Inr \<lparr>needs_disposing = True, length_field = 3, hash = Some 1625443, chars = [97, 98, 100, 0]\<rparr>
   \<and> operator_eq (EstrPtr 1) (EstrPtr 2)
       [(2, \<lparr>needs_disposing = True, length_field = 3, hash = Some 1625443, chars = [97, 98, 100, 0]\<rparr>),
        (1, \<lparr>needs_disposing = False, length_field = 3, hash = Some 1609314, chars = [97, 98, 99, 0]\<rparr>)]
     = Inr False"
proof -
  let ?x = "\<lparr>needs_disposing = False, length_field = 3, hash = Some 1609314, chars = [97, 98, 99, 0]\<rparr>"
  let ?y = "\<lparr>needs_disposing = True, length_field = 3, hash = Some 1625443, chars = [97, 98, 100, 0]\<rparr>"
  let ?H = "[(2 :: addr, ?y), (1, ?x)]"
  have bx: "built_from [97, 98, 99] ?x"
    by (simp add: built_from_def operator_estr_def EstrRawData_consteval_def
        ascii_string_hash_def INT_MAX_def)
  have bt: "built_from [97, 98, 100] ?y"
    by (simp add: built_from_def estr_new_init_def EstrRawData_int_def
        ascii_string_hash_def INT_MAX_def)
  have lx: "length [97, 98, 99 :: byte] < 2 ^ 31" and ly: "length [97, 98, 100 :: byte] < 2 ^ 31"
    by simp_all
  have dx: "deref ?H (raw_data (EstrPtr 1)) = Inr ?x"
    and dy: "deref ?H (raw_data (EstrPtr 2)) = Inr ?y"
    by (simp_all add: deref_def)
  from operator_eq_correct[OF bx bt lx ly dx dy] bx bt lx ly dx dy
  show ?thesis by simp
qed

text \<open>
  Without the bound the claim fails. A sequence of \<open>2^31\<close> NUL bytes gets the length 0
  in the 31-bit field and the hash 0, as the empty sequence does, and the two compare
  equal.
\<close>

theorem operator_eq_counterexample:
  "estr_new True [] [] =
     Inr (EstrPtr 1, [(1, \<lparr>needs_disposing = True, length_field = 0, hash = Some 0, chars = [0]\<rparr>)])
   \<and> estr_new True (replicate (2 ^ 31) 0)
        [(1, \<lparr>needs_disposing = True, length_field = 0, hash = Some 0, chars = [0]\<rparr>)] =
     Inr (EstrPtr 2,
          [(2, \<lparr>needs_disposing = True, length_field = 0, hash = Some 0,
                chars = replicate (2 ^ 31) 0 @ [0]\<rparr>),
           (1, \<lparr>needs_disposing = True, length_field = 0, hash = Some 0, chars = [0]\<rparr>)])
   \<and> operator_eq (EstrPtr 1) (EstrPtr 2)
        [(2, \<lparr>needs_disposing = True, length_field = 0, hash = Some 0,
              chars = replicate (2 ^ 31) 0 @ [0]\<rparr>),
         (1, \<lparr>needs_disposing = True, length_field = 0, hash = Some 0, chars = [0]\<rparr>)]
       = Inr True
   \<and> [] \<noteq> replicate (2 ^ 31) (0 :: byte)"
proof -
  have 1: "estr_new True [] [] =
     Inr (EstrPtr 1, [(1, \<lparr>needs_disposing = True, length_field = 0, hash = Some 0, chars = [0]\<rparr>)])"
    by (simp add: estr_new_def estr_new_init_def EstrRawData_int_def ascii_string_hash_def
        new_char_array_def unused_address_def create_from_raw_data_def)
  have "(of_nat (2 ^ 31) :: 31 word) = 0" by simp
  then have 2: "estr_new True (replicate (2 ^ 31) 0)
        [(1, \<lparr>needs_disposing = True, length_field = 0, hash = Some 0, chars = [0]\<rparr>)] =
     Inr (EstrPtr 2,
          [(2, \<lparr>needs_disposing = True, length_field = 0, hash = Some 0,
                chars = replicate (2 ^ 31) 0 @ [0]\<rparr>),
           (1, \<lparr>needs_disposing = True, length_field = 0, hash = Some 0, chars = [0]\<rparr>)])"
    by (simp add: estr_new_def estr_new_init_NULs new_char_array_def unused_address_def create_from_raw_data_def)
  have 3: "operator_eq (EstrPtr 1) (EstrPtr 2)
        [(2, \<lparr>needs_disposing = True, length_field = 0, hash = Some 0,
              chars = replicate (2 ^ 31) 0 @ [0]\<rparr>),
         (1, \<lparr>needs_disposing = True, length_field = 0, hash = Some 0, chars = [0]\<rparr>)]
       = Inr True"
    by (simp add: operator_eq_def operator_eq_counted_def EstrPtr_size_def EstrPtr_hash_def
        EstrPtr_data_def deref_def)
  have 4: "[] \<noteq> replicate (2 ^ 31) (0 :: byte)"
    by simp
  from 1 2 3 4 show ?thesis by (intro conjI)
qed

section \<open>The hash is a function of the bytes\<close>

text \<open>
  Claim C4. The stored hash depends on the bytes alone: the static path and the heap path
  both store \<^verbatim>\<open>ascii_string_hash\<close> of the bytes followed by a NUL, and fail on the same
  inputs; \<^verbatim>\<open>estr_new\<close> stores that value whatever the memory it runs in, so that hashing
  the same bytes again gives the same value; the hash is computed for every sequence of
  fewer than \<open>2^31\<close> bytes; and the empty string hashes to 0.
\<close>

theorem hash_same_on_both_paths:
  "map_sum id hash (operator_estr s) = map_sum id Some (ascii_string_hash (s @ [0]))
   \<and> map_sum id hash (estr_new_init s) = map_sum id Some (ascii_string_hash (s @ [0]))
   \<and> (estr_new avail s H = Inr (p, H') \<longrightarrow> EstrPtr_hash p H' = ascii_string_hash (s @ [0]))
   \<and> (length s < 2 ^ 31 \<longrightarrow>
        ascii_string_hash (s @ [0]) = Inr (polynomial_hash (takeWhile (\<lambda>c. c \<noteq> 0) s)))
   \<and> ascii_string_hash ([] @ [0]) = Inr 0"
proof (intro conjI impI)
  show "map_sum id hash (operator_estr s) = map_sum id Some (ascii_string_hash (s @ [0]))"
    by (simp add: operator_estr_def EstrRawData_consteval_def split: sum.splits)
  show i: "map_sum id hash (estr_new_init s) = map_sum id Some (ascii_string_hash (s @ [0]))"
    by (simp add: estr_new_init_def EstrRawData_int_def split: sum.splits)
  show "EstrPtr_hash p H' = ascii_string_hash (s @ [0])" if "estr_new avail s H = Inr (p, H')"
  proof -
    from estr_new_Inr[OF that] obtain d where
      d: "estr_new_init s = Inr d" "p = EstrPtr (unused_address H)"
         "H' = (unused_address H, d) # H"
      by blast
    from i d(1) obtain v where "ascii_string_hash (s @ [0]) = Inr v" "hash d = Some v"
      by (cases "ascii_string_hash (s @ [0])") auto
    with d show ?thesis
      by (simp add: EstrPtr_hash_def deref_def unused_address_nonnull)
  qed
  show "ascii_string_hash (s @ [0]) = Inr (polynomial_hash (takeWhile (\<lambda>c. c \<noteq> 0) s))"
    if "length s < 2 ^ 31"
    using that by (intro ascii_string_hash_terminated takeWhile_length_lt)
  show "ascii_string_hash ([] @ [0]) = Inr 0"
    by (simp add: ascii_string_hash_def)
qed

text \<open>The string \<open>abc\<close> on both paths: the same hash, 1609314.\<close>

theorem hash_same_on_both_paths_witness:
  "estr_new True [97, 98, 99] [] =
     Inr (EstrPtr 1, [(1, \<lparr>needs_disposing = True, length_field = 3, hash = Some 1609314,
                          chars = [97, 98, 99, 0]\<rparr>)])
   \<and> operator_estr [97, 98, 99] =
       Inr \<lparr>needs_disposing = False, length_field = 3, hash = Some 1609314,
            chars = [97, 98, 99, 0]\<rparr>
   \<and> EstrPtr_hash (EstrPtr 1)
       [(1, \<lparr>needs_disposing = True, length_field = 3, hash = Some 1609314,
             chars = [97, 98, 99, 0]\<rparr>)] = Inr 1609314
   \<and> length [97, 98, 99 :: byte] < 2 ^ 31
   \<and> ascii_string_hash ([97, 98, 99] @ [0]) = Inr (polynomial_hash [97, 98, 99])"
proof -
  let ?d = "\<lparr>needs_disposing = True, length_field = 3, hash = Some 1609314,
             chars = [97, 98, 99, 0]\<rparr>"
  have new: "estr_new True [97, 98, 99] [] = Inr (EstrPtr 1, [(1, ?d)])"
    by (simp add: estr_new_def estr_new_init_def EstrRawData_int_def ascii_string_hash_def
        INT_MAX_def new_char_array_def unused_address_def create_from_raw_data_def)
  have lit: "operator_estr [97, 98, 99] =
       Inr \<lparr>needs_disposing = False, length_field = 3, hash = Some 1609314,
            chars = [97, 98, 99, 0]\<rparr>"
    by (simp add: operator_estr_def EstrRawData_consteval_def ascii_string_hash_def INT_MAX_def)
  have len: "length [97, 98, 99 :: byte] < 2 ^ 31" by simp
  note inst = hash_same_on_both_paths[where s = "[97, 98, 99]" and avail = True and H = "[]"
      and p = "EstrPtr 1" and H' = "[(1, ?d)]"]
  from inst new
  have h: "EstrPtr_hash (EstrPtr 1) [(1, ?d)] = ascii_string_hash ([97, 98, 99] @ [0])"
    by blast
  from inst len
  have p: "ascii_string_hash ([97, 98, 99] @ [0]) = Inr (polynomial_hash [97, 98, 99])"
    by simp
  have "polynomial_hash [97, 98, 99] = 1609314" by (simp add: polynomial_hash_def)
  with new lit len h p show ?thesis by simp
qed

section \<open>Equality is the three-stage algorithm\<close>

text \<open>
  Claim C5. On two handles to live headers, \<^verbatim>\<open>operator==\<close> is the reference algorithm:
  when the lengths differ the result is false and \<^verbatim>\<open>memcmp\<close> is not called; else when
  the cached hashes differ the result is false and \<^verbatim>\<open>memcmp\<close> is not called; else the
  result is the comparison of the two ranges of \<open>length\<close> bytes, by one call of
  \<^verbatim>\<open>memcmp\<close>. Strings of different lengths are never byte-compared.
\<close>

theorem operator_eq_three_stage:
  assumes "deref H (raw_data a) = Inr x" and "deref H (raw_data b) = Inr y"
    and "hash x = Some vx" and "hash y = Some vy"
    and "unat (length_field x) \<le> length (chars x)"
    and "unat (length_field y) \<le> length (chars y)"
  shows "operator_eq_counted a b H = Inr (equals_reference x y)
       \<and> operator_eq a b H = Inr (fst (equals_reference x y))
       \<and> operator_eq_counted a b H =
           Inr (if length_field x \<noteq> length_field y then (False, 0)
                else if vx \<noteq> vy then (False, 0)
                else (bytes x = bytes y, 1))"
proof -
  have "operator_eq_counted a b H = Inr (equals_reference x y)"
    using assms by (rule operator_eq_counted_live)
  then show ?thesis
    using assms(3,4) by (simp add: operator_eq_def equals_reference_def)
qed

text \<open>
  The heap header of \<open>ad\<close> against the static header of \<open>abc\<close>: the lengths differ,
  the result is false and no bytes are compared.
\<close>

theorem operator_eq_three_stage_witness:
  "deref [(1, \<lparr>needs_disposing = True, length_field = 2, hash = Some 12797, chars = [97, 100, 0]\<rparr>),
          (2, \<lparr>needs_disposing = False, length_field = 3, hash = Some 1609314, chars = [97, 98, 99, 0]\<rparr>)]
         (raw_data (EstrPtr 1))
     = Inr \<lparr>needs_disposing = True, length_field = 2, hash = Some 12797, chars = [97, 100, 0]\<rparr>
   \<and> deref [(1, \<lparr>needs_disposing = True, length_field = 2, hash = Some 12797, chars = [97, 100, 0]\<rparr>),
          (2, \<lparr>needs_disposing = False, length_field = 3, hash = Some 1609314, chars = [97, 98, 99, 0]\<rparr>)]
         (raw_data (EstrPtr 2))
     = Inr \<lparr>needs_disposing = False, length_field = 3, hash = Some 1609314, chars = [97, 98, 99, 0]\<rparr>
   \<and> operator_eq_counted (EstrPtr 1) (EstrPtr 2)
         [(1, \<lparr>needs_disposing = True, length_field = 2, hash = Some 12797, chars = [97, 100, 0]\<rparr>),
          (2, \<lparr>needs_disposing = False, length_field = 3, hash = Some 1609314, chars = [97, 98, 99, 0]\<rparr>)]
     = Inr (False, 0)"
proof -
  let ?x = "\<lparr>needs_disposing = True, length_field = 2, hash = Some 12797, chars = [97, 100, 0]\<rparr>"
  let ?y = "\<lparr>needs_disposing = False, length_field = 3, hash = Some 1609314, chars = [97, 98, 99, 0]\<rparr>"
  let ?H = "[(1::addr, ?x), (2, ?y)]"
  have a: "deref ?H (raw_data (EstrPtr 1)) = Inr ?x" by (simp add: deref_def)
  have b: "deref ?H (raw_data (EstrPtr 2)) = Inr ?y" by (simp add: deref_def)
  have "operator_eq_counted (EstrPtr 1) (EstrPtr 2) ?H = Inr (equals_reference ?x ?y)"
    using operator_eq_three_stage[OF a b, of 12797 1609314] by simp
  then show ?thesis using a b by (simp add: equals_reference_def)
qed

section \<open>Release\<close>

text \<open>
  Claim C6. On a handle to a live header, \<^verbatim>\<open>destroy\<close> frees the header if and only if
  its \<open>needs_disposing\<close> flag is true: with the flag set the block is removed from the
  memory and the pointer dangles, with the flag clear the memory is unchanged. In
  particular, claiming a view of a static header into an \<^verbatim>\<open>EstrUniquePtr\<close> and destroying
  that frees nothing.
\<close>

theorem destroy_frees_iff_needs_disposing:
  assumes "deref H (raw_data p) = Inr d"
  shows "EstrPtr_destroy p H = Inr (if needs_disposing d then AList.delete (raw_data p) H else H)
       \<and> deref (AList.delete (raw_data p) H) (raw_data p) = Inl DanglingPointer
       \<and> deref H (raw_data (EstrUniquePtr_claim p)) = Inr d
       \<and> EstrUniquePtr_dtor (EstrUniquePtr_claim p) H =
           Inr (if needs_disposing d then AList.delete (raw_data p) H else H)"
proof -
  from assms have live: "raw_data p \<noteq> 0" "map_of H (raw_data p) = Some d"
    by (simp_all add: deref_Inr)
  have destroy: "EstrPtr_destroy q H =
      Inr (if needs_disposing d then AList.delete (raw_data p) H else H)"
    if "raw_data q = raw_data p" for q
    using that assms live
    by (simp add: EstrPtr_destroy_def EstrPtr_needs_disposing_def delete_array_def)
  have claimed: "raw_data (EstrUniquePtr_claim p) = raw_data p"
    by (simp add: EstrUniquePtr_claim_def EstrUniquePtr_move_def)
  have "deref (AList.delete (raw_data p) H) (raw_data p) = Inl DanglingPointer"
    using live(1) by (simp add: deref_def delete_conv')
  moreover have "EstrUniquePtr_dtor (EstrUniquePtr_claim p) H =
      Inr (if needs_disposing d then AList.delete (raw_data p) H else H)"
    unfolding EstrUniquePtr_dtor_def
    by (rule destroy) (simp add: EstrUniquePtr_get_def create_from_raw_data_def claimed)
  ultimately show ?thesis
    using destroy[of p] assms claimed by simp
qed

text \<open>
  A static header of \<open>abc\<close> and a heap header of \<open>ad\<close>. The first, claimed and
  destroyed, leaves the memory as it was; destroying the second frees its block.
\<close>

theorem destroy_frees_iff_needs_disposing_witness:
  "deref [(2, \<lparr>needs_disposing = True, length_field = 2, hash = Some 12797, chars = [97, 100, 0]\<rparr>),
          (1, \<lparr>needs_disposing = False, length_field = 3, hash = Some 1609314, chars = [97, 98, 99, 0]\<rparr>)]
         (raw_data (EstrPtr 1))
     = Inr \<lparr>needs_disposing = False, length_field = 3, hash = Some 1609314, chars = [97, 98, 99, 0]\<rparr>
   \<and> EstrUniquePtr_dtor (EstrUniquePtr_claim (EstrPtr 1))
       [(2, \<lparr>needs_disposing = True, length_field = 2, hash = Some 12797, chars = [97, 100, 0]\<rparr>),
        (1, \<lparr>needs_disposing = False, length_field = 3, hash = Some 1609314, chars = [97, 98, 99, 0]\<rparr>)]
     = Inr [(2, \<lparr>needs_disposing = True, length_field = 2, hash = Some 12797, chars = [97, 100, 0]\<rparr>),
            (1, \<lparr>needs_disposing = False, length_field = 3, hash = Some 1609314, chars = [97, 98, 99, 0]\<rparr>)]
   \<and> deref [(2, \<lparr>needs_disposing = True, length_field = 2, hash = Some 12797, chars = [97, 100, 0]\<rparr>),
          (1, \<lparr>needs_disposing = False, length_field = 3, hash = Some 1609314, chars = [97, 98, 99, 0]\<rparr>)]
         (raw_data (EstrPtr 2))
     = Inr \<lparr>needs_disposing = True, length_field = 2, hash = Some 12797, chars = [97, 100, 0]\<rparr>
   \<and> EstrPtr_destroy (EstrPtr 2)
       [(2, \<lparr>needs_disposing = True, length_field = 2, hash = Some 12797, chars = [97, 100, 0]\<rparr>),
        (1, \<lparr>needs_disposing = False, length_field = 3, hash = Some 1609314, chars = [97, 98, 99, 0]\<rparr>)]
     = Inr [(1, \<lparr>needs_disposing = False, length_field = 3, hash = Some 1609314, chars = [97, 98, 99, 0]\<rparr>)]"
proof -
  let ?x = "\<lparr>needs_disposing = False, length_field = 3, hash = Some 1609314, chars = [97, 98, 99, 0]\<rparr>"
  let ?y = "\<lparr>needs_disposing = True, length_field = 2, hash = Some 12797, chars = [97, 100, 0]\<rparr>"
  let ?H = "[(2 :: addr, ?y), (1, ?x)]"
  have a: "deref ?H (raw_data (EstrPtr 1)) = Inr ?x" by (simp add: deref_def)
  have b: "deref ?H (raw_data (EstrPtr 2)) = Inr ?y" by (simp add: deref_def)
  have "EstrUniquePtr_dtor (EstrUniquePtr_claim (EstrPtr 1)) ?H = Inr ?H"
    using destroy_frees_iff_needs_disposing[OF a] by simp
  moreover have "EstrPtr_destroy (EstrPtr 2) ?H = Inr [(1, ?x)]"
    using destroy_frees_iff_needs_disposing[OF b] by (simp add: AList.delete_eq)
  ultimately show ?thesis using a b by simp
qed

section \<open>What estr_new returns\<close>

text \<open>
  Claim C7, as amended. For every byte sequence \<open>s\<close> of at most \<open>2^31 - 1\<close> bytes,
  \<^verbatim>\<open>estr_new\<close> either fails with \<open>AllocationFailure\<close>, which it does exactly when the
  allocator has no memory for it, or returns a handle to a block at an address that is
  not null and was not in use; the size it asks \<^verbatim>\<open>new char[]\<close> for covers the offset of
  the characters plus \<open>|s| + 1\<close> bytes; the buffer holds the bytes of \<open>s\<close> followed by a
  NUL at index \<open>|s|\<close>; the flag is set, the length is \<open>|s|\<close>, the content is \<open>s\<close>;
  and the hash is the polynomial hash of the copied bytes that precede the first NUL
  byte, which are all of them when \<open>s\<close> has no NUL byte.
\<close>

theorem estr_new_result:
  assumes "length s < 2 ^ 31"
  shows "(estr_new avail s H = Inl AllocationFailure) = (\<not> avail)
       \<and> (estr_new avail s H = Inl AllocationFailure
          \<or> (\<exists>d. estr_new avail s H =
                    Inr (EstrPtr (unused_address H), (unused_address H, d) # H)
               \<and> unused_address H \<noteq> 0 \<and> map_of H (unused_address H) = None
               \<and> offsetof_chars + length (chars d)
                   \<le> estr_new_alloc_size sizeof_raw offsetof_chars (length s)
               \<and> chars d = s @ [0] \<and> chars d ! length s = 0
               \<and> needs_disposing d
               \<and> unat (length_field d) = length s
               \<and> bytes d = s
               \<and> hash d =
                   Some (polynomial_hash
                          (if 0 \<in> set s then takeWhile (\<lambda>c. c \<noteq> 0) s else s))))"
proof (cases avail)
  case False
  then show ?thesis by (simp add: estr_new_AllocationFailure)
next
  case True
  let ?d = "\<lparr>needs_disposing = True, length_field = of_nat (length s),
            hash = Some (polynomial_hash (takeWhile (\<lambda>c. c \<noteq> 0) s)), chars = s @ [0]\<rparr>"
  have "estr_new True s H = Inr (EstrPtr (unused_address H), (unused_address H, ?d) # H)"
    using assms by (intro estr_new_total takeWhile_length_lt)
  with True
  have "estr_new avail s H = Inr (EstrPtr (unused_address H), (unused_address H, ?d) # H)"
    by simp
  moreover have "unat (length_field ?d) = length s"
    using assms by (simp add: unat_of_nat_31)
  moreover from this have "bytes ?d = s" by (simp add: bytes_def)
  moreover have "offsetof_chars + length (chars ?d)
               \<le> estr_new_alloc_size sizeof_raw offsetof_chars (length s)"
    by (simp add: estr_new_alloc_size_def)
  ultimately have "\<exists>d. estr_new avail s H =
                    Inr (EstrPtr (unused_address H), (unused_address H, d) # H)
               \<and> unused_address H \<noteq> 0 \<and> map_of H (unused_address H) = None
               \<and> offsetof_chars + length (chars d)
                   \<le> estr_new_alloc_size sizeof_raw offsetof_chars (length s)
               \<and> chars d = s @ [0] \<and> chars d ! length s = 0
               \<and> needs_disposing d
               \<and> unat (length_field d) = length s
               \<and> bytes d = s
               \<and> hash d =
                   Some (polynomial_hash
                          (if 0 \<in> set s then takeWhile (\<lambda>c. c \<noteq> 0) s else s))"
    by (intro exI[of _ ?d]) (simp add: unused_address_nonnull unused_address_fresh
        takeWhile_nonzero_id nth_append)
  with True show ?thesis by (simp add: estr_new_AllocationFailure)
qed

text \<open>
  The string \<open>hello\<close>. With memory at hand \<^verbatim>\<open>size()\<close> is 5, \<^verbatim>\<open>view()\<close> is \<open>hello\<close> and
  \<^verbatim>\<open>hash()\<close> is the polynomial hash of \<open>hello\<close>; without, the call fails.
\<close>

theorem estr_new_result_witness:
  "length [104, 101, 108, 108, 111 :: byte] < 2 ^ 31
   \<and> estr_new False [104, 101, 108, 108, 111] [] = Inl AllocationFailure
   \<and> estr_new True [104, 101, 108, 108, 111] [] =
       Inr (EstrPtr 1, [(1, \<lparr>needs_disposing = True, length_field = 5,
                              hash = Some (polynomial_hash [104, 101, 108, 108, 111]),
                              chars = [104, 101, 108, 108, 111, 0]\<rparr>)])
   \<and> EstrPtr_size (EstrPtr 1) [(1, \<lparr>needs_disposing = True, length_field = 5,
                              hash = Some (polynomial_hash [104, 101, 108, 108, 111]),
                              chars = [104, 101, 108, 108, 111, 0]\<rparr>)] = Inr 5
   \<and> EstrPtr_view (EstrPtr 1) [(1, \<lparr>needs_disposing = True, length_field = 5,
                              hash = Some (polynomial_hash [104, 101, 108, 108, 111]),
                              chars = [104, 101, 108, 108, 111, 0]\<rparr>)]
       = Inr [104, 101, 108, 108, 111]
   \<and> EstrPtr_hash (EstrPtr 1) [(1, \<lparr>needs_disposing = True, length_field = 5,
                              hash = Some (polynomial_hash [104, 101, 108, 108, 111]),
                              chars = [104, 101, 108, 108, 111, 0]\<rparr>)]
       = Inr (polynomial_hash [104, 101, 108, 108, 111])"
proof -
  let ?s = "[104, 101, 108, 108, 111 :: byte]"
  have len: "length ?s < 2 ^ 31" by simp
  note without = estr_new_result[OF len, where avail = False and H = "[]"
      and offsetof_chars = 8 and sizeof_raw = 12]
  note inst = estr_new_result[OF len, where avail = True and H = "[]"
      and offsetof_chars = 8 and sizeof_raw = 12]
  from without have "(estr_new False ?s [] = Inl AllocationFailure) = (\<not> False)"
    by blast
  then have no: "estr_new False ?s [] = Inl AllocationFailure" by simp
  from inst have "(estr_new True ?s [] = Inl AllocationFailure) = (\<not> True)"
    by blast
  then have "estr_new True ?s [] \<noteq> Inl AllocationFailure" by simp
  with inst obtain d where
    d: "estr_new True ?s [] = Inr (EstrPtr (unused_address []), [(unused_address [], d)])"
       "chars d = ?s @ [0]" "needs_disposing d" "unat (length_field d) = length ?s"
       "hash d = Some (polynomial_hash ?s)"
    by auto
  from d(4) have "length_field d = 5" by (simp add: word_unat_eq_iff)
  with d(2,3,5) have "d = \<lparr>needs_disposing = True, length_field = 5,
      hash = Some (polynomial_hash ?s), chars = [104, 101, 108, 108, 111, 0]\<rparr>"
    by (cases d) simp
  with d(1) len no show ?thesis
    by (simp add: unused_address_def EstrPtr_size_def EstrPtr_view_def EstrPtr_data_def
        EstrPtr_hash_def deref_def)
qed

text \<open>
  Without the amendments the claim fails twice. On the bytes \<open>h\<close>, NUL, \<open>i\<close> the stored
  hash is 104, while the polynomial hash of the three copied bytes is
  \<open>104 + 105 * 127^2\<close>. On \<open>2^31\<close> NUL bytes the stored length is 0.
\<close>

theorem estr_new_counterexample:
  "estr_new True [104, 0, 105] [] =
     Inr (EstrPtr 1, [(1, \<lparr>needs_disposing = True, length_field = 3, hash = Some 104,
                          chars = [104, 0, 105, 0]\<rparr>)])
   \<and> polynomial_hash [104, 0, 105] = 1693649
   \<and> estr_new True (replicate (2 ^ 31) 0) [] =
     Inr (EstrPtr 1, [(1, \<lparr>needs_disposing = True, length_field = 0, hash = Some 0,
                          chars = replicate (2 ^ 31) 0 @ [0]\<rparr>)])
   \<and> length (replicate (2 ^ 31) (0 :: byte)) = 2147483648"
proof -
  have 1: "estr_new True [104, 0, 105] [] =
     Inr (EstrPtr 1, [(1, \<lparr>needs_disposing = True, length_field = 3, hash = Some 104,
                          chars = [104, 0, 105, 0]\<rparr>)])"
    by (simp add: estr_new_def estr_new_init_def EstrRawData_int_def ascii_string_hash_def
        INT_MAX_def new_char_array_def unused_address_def create_from_raw_data_def)
  have 2: "polynomial_hash [104, 0, 105] = 1693649"
    by (simp add: polynomial_hash_def)
  have "(of_nat (2 ^ 31) :: 31 word) = 0" by simp
  then have 3: "estr_new True (replicate (2 ^ 31) 0) [] =
     Inr (EstrPtr 1, [(1, \<lparr>needs_disposing = True, length_field = 0, hash = Some 0,
                          chars = replicate (2 ^ 31) 0 @ [0]\<rparr>)])"
    by (simp add: estr_new_def estr_new_init_NULs new_char_array_def unused_address_def create_from_raw_data_def)
  have 4: "length (replicate (2 ^ 31) (0 :: byte)) = 2147483648" by simp
  from 1 2 3 4 show ?thesis by (intro conjI)
qed

section \<open>Clone\<close>

text \<open>
  Claim C8. For every owning handle to a live header, \<^verbatim>\<open>clone()\<close> is
  \<^verbatim>\<open>estr_unique_new\<close> on the bytes of the original. It either fails with
  \<open>AllocationFailure\<close>, which it does exactly when the allocator has no memory for the
  copy, or returns a handle whose view equals the original's view and whose header needs
  disposing and lies at an address that is not null, differs from the original's and was
  not in use before, while the original's header is still there, unchanged.
\<close>

theorem clone_independent_copy:
  assumes "deref H (raw_data u) = Inr d" and "unat (length_field d) \<le> length (chars d)"
  shows "EstrUniquePtr_clone avail u H = estr_unique_new avail (bytes d) H
       \<and> EstrPtr_view u H = Inr (bytes d)
       \<and> (EstrUniquePtr_clone avail u H = Inl AllocationFailure) = (\<not> avail)
       \<and> (EstrUniquePtr_clone avail u H = Inl AllocationFailure
          \<or> (\<exists>c H'. EstrUniquePtr_clone avail u H = Inr (c, H')
               \<and> EstrPtr_view c H' = Inr (bytes d)
               \<and> EstrPtr_view u H' = Inr (bytes d)
               \<and> EstrPtr_needs_disposing c H' = Inr True
               \<and> raw_data c \<noteq> raw_data u \<and> raw_data c \<noteq> 0
               \<and> map_of H (raw_data c) = None
               \<and> deref H' (raw_data u) = Inr d))"
proof -
  let ?a = "unused_address H"
  let ?c = "\<lparr>needs_disposing = True, length_field = of_nat (length (bytes d)),
            hash = Some (polynomial_hash (takeWhile (\<lambda>c. c \<noteq> 0) (bytes d))),
            chars = bytes d @ [0]\<rparr>"
  have v: "EstrPtr_view u H = Inr (bytes d)"
    using assms by (rule EstrPtr_view_live)
  have eq: "EstrUniquePtr_clone avail u H = estr_unique_new avail (bytes d) H"
    by (simp add: EstrUniquePtr_clone_def v)
  have fail: "(EstrUniquePtr_clone avail u H = Inl AllocationFailure) = (\<not> avail)"
    using estr_new_AllocationFailure[of avail "bytes d" H]
    by (auto simp: eq estr_unique_new_def split: sum.splits)
  show ?thesis
  proof (cases avail)
    case False
    with eq v fail show ?thesis by simp
  next
    case True
    have len: "length (bytes d) < 2 ^ 31"
      using assms(2) unat_31_bound[of "length_field d"] by (simp add: bytes_def)
    then have "estr_new True (bytes d) H = Inr (EstrPtr ?a, (?a, ?c) # H)"
      by (intro estr_new_total takeWhile_length_lt)
    with True have new: "estr_new avail (bytes d) H = Inr (EstrPtr ?a, (?a, ?c) # H)"
      by simp
    have cl: "EstrUniquePtr_clone avail u H = Inr (EstrPtr ?a, (?a, ?c) # H)"
      by (simp add: eq estr_unique_new_def new EstrUniquePtr_claim_def EstrUniquePtr_move_def)
    have fresh: "map_of H ?a = None" "?a \<noteq> 0"
      by (rule unused_address_fresh, rule unused_address_nonnull)
    from assms(1) have live: "raw_data u \<noteq> 0" "map_of H (raw_data u) = Some d"
      by (simp_all add: deref_Inr)
    with fresh have ne: "?a \<noteq> raw_data u" by auto
    then have d': "deref ((?a, ?c) # H) (raw_data u) = Inr d"
      using live by (simp add: deref_def)
    have dc: "deref ((?a, ?c) # H) (raw_data (EstrPtr ?a)) = Inr ?c"
      using fresh(2) by (simp add: deref_def)
    have "unat (length_field ?c) = length (bytes d)"
      using len by (simp add: unat_of_nat_31)
    then have bc: "bytes ?c = bytes d" "unat (length_field ?c) \<le> length (chars ?c)"
      by (simp_all add: bytes_def[of ?c])
    have vc: "EstrPtr_view (EstrPtr ?a) ((?a, ?c) # H) = Inr (bytes d)"
      using EstrPtr_view_live[OF dc bc(2)] bc(1) by simp
    have vu: "EstrPtr_view u ((?a, ?c) # H) = Inr (bytes d)"
      using d' assms(2) by (rule EstrPtr_view_live)
    have nd: "EstrPtr_needs_disposing (EstrPtr ?a) ((?a, ?c) # H) = Inr True"
      using dc by (simp add: EstrPtr_needs_disposing_def)
    have "\<exists>c H'. EstrUniquePtr_clone avail u H = Inr (c, H')
               \<and> EstrPtr_view c H' = Inr (bytes d)
               \<and> EstrPtr_view u H' = Inr (bytes d)
               \<and> EstrPtr_needs_disposing c H' = Inr True
               \<and> raw_data c \<noteq> raw_data u \<and> raw_data c \<noteq> 0
               \<and> map_of H (raw_data c) = None
               \<and> deref H' (raw_data u) = Inr d"
      using cl vc vu nd ne fresh d'
      by (intro exI[of _ "EstrPtr ?a"] exI[of _ "(?a, ?c) # H"]) simp
    with eq v fail show ?thesis by simp
  qed
qed

text \<open>
  Cloning the heap header of \<open>ad\<close> at address 1 gives an equal header at address 2, or
  fails when there is no memory.
\<close>

theorem clone_independent_copy_witness:
  "deref [(1, \<lparr>needs_disposing = True, length_field = 2, hash = Some 12797, chars = [97, 100, 0]\<rparr>)]
      (raw_data (EstrPtr 1))
     = Inr \<lparr>needs_disposing = True, length_field = 2, hash = Some 12797, chars = [97, 100, 0]\<rparr>
   \<and> EstrUniquePtr_clone False (EstrPtr 1)
       [(1, \<lparr>needs_disposing = True, length_field = 2, hash = Some 12797, chars = [97, 100, 0]\<rparr>)]
     = Inl AllocationFailure
   \<and> EstrUniquePtr_clone True (EstrPtr 1)
       [(1, \<lparr>needs_disposing = True, length_field = 2, hash = Some 12797, chars = [97, 100, 0]\<rparr>)]
     = Inr (EstrPtr 2,
            [(2, \<lparr>needs_disposing = True, length_field = 2, hash = Some 12797, chars = [97, 100, 0]\<rparr>),
             (1, \<lparr>needs_disposing = True, length_field = 2, hash = Some 12797, chars = [97, 100, 0]\<rparr>)])"
proof -
  let ?d = "\<lparr>needs_disposing = True, length_field = 2, hash = Some 12797, chars = [97, 100, 0]\<rparr>"
  have a: "deref [(1, ?d)] (raw_data (EstrPtr 1)) = Inr ?d" by (simp add: deref_def)
  have b: "unat (length_field ?d) \<le> length (chars ?d)" by simp
  have e: "estr_unique_new True [97, 100] [(1, ?d)] = Inr (EstrPtr 2, [(2, ?d), (1, ?d)])"
    by (simp add: estr_unique_new_def estr_new_def estr_new_init_def EstrRawData_int_def
        ascii_string_hash_def INT_MAX_def new_char_array_def unused_address_def
        create_from_raw_data_def EstrUniquePtr_claim_def EstrUniquePtr_move_def)
  from clone_independent_copy[OF a b, where avail = False]
  have "(EstrUniquePtr_clone False (EstrPtr 1) [(1, ?d)] = Inl AllocationFailure) = (\<not> False)"
    by blast
  then have "EstrUniquePtr_clone False (EstrPtr 1) [(1, ?d)] = Inl AllocationFailure"
    by simp
  moreover from clone_independent_copy[OF a b, where avail = True]
  have "EstrUniquePtr_clone True (EstrPtr 1) [(1, ?d)] = estr_unique_new True (bytes ?d) [(1, ?d)]"
    by blast
  ultimately show ?thesis using a e by (simp add: bytes_def)
qed

section \<open>The hash for hash maps\<close>

text \<open>
  Claim C9. \<^verbatim>\<open>std::hash<EstrPtr>\<close> returns the hash cached in the header, widened to
  \<^verbatim>\<open>size_t\<close> without loss and read without any pass over the bytes; and it is
  consistent with equality: whenever \<^verbatim>\<open>a == b\<close> is true, the hashes of \<open>a\<close> and \<open>b\<close>
  are defined and equal.
\<close>

theorem std_hash_consistent:
  "(deref H (raw_data a) = Inr d \<and> hash d = Some v \<longrightarrow>
      std_hash a H = Inr (ucast v) \<and> (ucast (ucast v :: 64 word) :: 32 word) = v)
   \<and> (operator_eq a b H = Inr True \<longrightarrow>
        std_hash a H = std_hash b H \<and> (\<exists>w. std_hash a H = Inr w))"
proof (intro conjI impI)
  assume "deref H (raw_data a) = Inr d \<and> hash d = Some v"
  then show "std_hash a H = Inr (ucast v)"
    by (simp add: std_hash_def EstrPtr_hash_def)
next
  show "(ucast (ucast v :: 64 word) :: 32 word) = v"
    by (simp add: ucast_up_ucast_id is_up)
next
  assume "operator_eq a b H = Inr True"
  then obtain n where "operator_eq_counted a b H = Inr (True, n)"
    by (cases "operator_eq_counted a b H") (auto simp: operator_eq_def)
  then obtain ha hb where h: "EstrPtr_hash a H = Inr ha" "EstrPtr_hash b H = Inr hb" "ha = hb"
    by (auto simp: operator_eq_counted_def split: sum.splits if_splits)
  then show "std_hash a H = std_hash b H" by (simp add: std_hash_def)
  from h show "\<exists>w. std_hash a H = Inr w" by (simp add: std_hash_def)
qed

text \<open>A static and a heap header of \<open>ad\<close>: equal, and both hash to 12797.\<close>

theorem std_hash_consistent_witness:
  "operator_eq (EstrPtr 1) (EstrPtr 2)
       [(2, \<lparr>needs_disposing = True, length_field = 2, hash = Some 12797, chars = [97, 100, 0]\<rparr>),
        (1, \<lparr>needs_disposing = False, length_field = 2, hash = Some 12797, chars = [97, 100, 0]\<rparr>)]
     = Inr True
   \<and> std_hash (EstrPtr 1)
       [(2, \<lparr>needs_disposing = True, length_field = 2, hash = Some 12797, chars = [97, 100, 0]\<rparr>),
        (1, \<lparr>needs_disposing = False, length_field = 2, hash = Some 12797, chars = [97, 100, 0]\<rparr>)]
     = std_hash (EstrPtr 2)
       [(2, \<lparr>needs_disposing = True, length_field = 2, hash = Some 12797, chars = [97, 100, 0]\<rparr>),
        (1, \<lparr>needs_disposing = False, length_field = 2, hash = Some 12797, chars = [97, 100, 0]\<rparr>)]
   \<and> std_hash (EstrPtr 1)
       [(2, \<lparr>needs_disposing = True, length_field = 2, hash = Some 12797, chars = [97, 100, 0]\<rparr>),
        (1, \<lparr>needs_disposing = False, length_field = 2, hash = Some 12797, chars = [97, 100, 0]\<rparr>)]
     = Inr 12797"
proof -
  let ?x = "\<lparr>needs_disposing = True, length_field = 2, hash = Some 12797, chars = [97, 100, 0]\<rparr>"
  let ?y = "\<lparr>needs_disposing = False, length_field = 2, hash = Some 12797, chars = [97, 100, 0]\<rparr>"
  let ?H = "[(2 :: addr, ?x), (1, ?y)]"
  have e: "operator_eq (EstrPtr 1) (EstrPtr 2) ?H = Inr True"
    by (simp add: operator_eq_def operator_eq_counted_def EstrPtr_size_def EstrPtr_hash_def
        EstrPtr_data_def deref_def memcmp_numeral)
  have d: "deref ?H (raw_data (EstrPtr 1)) = Inr ?y \<and> hash ?y = Some 12797"
    by (simp add: deref_def)
  note inst = std_hash_consistent[of ?H "EstrPtr 1" ?y 12797 "EstrPtr 2"]
  from inst e have "std_hash (EstrPtr 1) ?H = std_hash (EstrPtr 2) ?H" by blast
  moreover from inst d have "std_hash (EstrPtr 1) ?H = Inr (ucast (12797 :: 32 word))" by blast
  ultimately show ?thesis using e by simp
qed

section \<open>The 31-bit length\<close>

text \<open>
  Claim C10. The length is a 31-bit field beside the 1-bit flag. Storing a size into it
  reduces the size modulo \<open>2^31\<close>, so that the field never exceeds \<open>2^31 - 1\<close>; for every
  input of at most \<open>2^31 - 1\<close> bytes \<^verbatim>\<open>estr_new\<close> either fails with
  \<open>AllocationFailure\<close>, which it does exactly when the allocator has no memory for it, or
  stores a length equal to the size of the input; and the flag is not affected by the
  assignment to the length: every header that \<^verbatim>\<open>estr_new\<close> returns has it set.
\<close>

theorem length_field_31_bits:
  "(length s \<le> 2 ^ 31 - 1 \<longrightarrow>
      estr_new avail s H = Inl AllocationFailure
      \<or> (\<exists>d. estr_new avail s H = Inr (EstrPtr (unused_address H), (unused_address H, d) # H)
           \<and> unat (length_field d) = length s \<and> needs_disposing d))
   \<and> (estr_new avail s H = Inl AllocationFailure) = (\<not> avail)
   \<and> (estr_new avail s H = Inr (p, H') \<longrightarrow>
        EstrPtr_size p H' = Inr (of_nat (length s mod 2 ^ 31))
      \<and> EstrPtr_needs_disposing p H' = Inr True)
   \<and> needs_disposing (d\<lparr>length_field := v\<rparr>) = needs_disposing d
   \<and> unat (length_field (d\<lparr>length_field := of_nat n\<rparr>)) = n mod 2 ^ 31
   \<and> unat (length_field d) \<le> 2 ^ 31 - 1"
proof (intro conjI impI)
  assume le: "length s \<le> 2 ^ 31 - 1"
  let ?d = "\<lparr>needs_disposing = True, length_field = of_nat (length s),
            hash = Some (polynomial_hash (takeWhile (\<lambda>c. c \<noteq> 0) s)), chars = s @ [0]\<rparr>"
  from le have lt: "length s < 2 ^ 31" by simp
  show "estr_new avail s H = Inl AllocationFailure
      \<or> (\<exists>d. estr_new avail s H = Inr (EstrPtr (unused_address H), (unused_address H, d) # H)
           \<and> unat (length_field d) = length s \<and> needs_disposing d)"
  proof (cases avail)
    case False
    then show ?thesis by (simp add: estr_new_AllocationFailure)
  next
    case True
    from lt have "estr_new True s H =
        Inr (EstrPtr (unused_address H), (unused_address H, ?d) # H)"
      by (intro estr_new_total takeWhile_length_lt)
    with True have "estr_new avail s H =
        Inr (EstrPtr (unused_address H), (unused_address H, ?d) # H)"
      by simp
    moreover have "unat (length_field ?d) = length s"
      using lt by (simp add: unat_of_nat_31)
    ultimately have "\<exists>d. estr_new avail s H =
          Inr (EstrPtr (unused_address H), (unused_address H, d) # H)
        \<and> unat (length_field d) = length s \<and> needs_disposing d"
      by (intro exI[of _ ?d]) simp
    then show ?thesis by (rule disjI2)
  qed
next
  show "(estr_new avail s H = Inl AllocationFailure) = (\<not> avail)"
    by (rule estr_new_AllocationFailure)
next
  assume new: "estr_new avail s H = Inr (p, H')"
  from estr_new_Inr[OF new] obtain e where
    e: "estr_new_init s = Inr e" "p = EstrPtr (unused_address H)"
       "H' = (unused_address H, e) # H"
    by blast
  from estr_new_init_Inr[OF e(1)] have f: "length_field e = of_nat (length s)" "needs_disposing e"
    by simp_all
  from e(2,3) have dr: "deref H' (raw_data p) = Inr e"
    by (simp add: deref_def unused_address_nonnull)
  show "EstrPtr_size p H' = Inr (of_nat (length s mod 2 ^ 31))"
    using dr f(1) by (simp add: EstrPtr_size_def ucast_of_nat_31_32)
  show "EstrPtr_needs_disposing p H' = Inr True"
    using dr f(2) by (simp add: EstrPtr_needs_disposing_def)
next
  show "needs_disposing (d\<lparr>length_field := v\<rparr>) = needs_disposing d" by simp
  show "unat (length_field (d\<lparr>length_field := of_nat n\<rparr>)) = n mod 2 ^ 31"
    by (simp add: unat_of_nat_31)
  show "unat (length_field d) \<le> 2 ^ 31 - 1"
    using unat_31_bound[of "length_field d"] by simp
qed

text \<open>
  The string \<open>ad\<close> with memory at hand: the stored length is 2 and the flag is set.
\<close>

theorem length_field_31_bits_witness:
  "length [97, 100 :: byte] \<le> 2 ^ 31 - 1
   \<and> estr_new True [97, 100] [] =
       Inr (EstrPtr 1,
            [(1, \<lparr>needs_disposing = True, length_field = 2, hash = Some 12797, chars = [97, 100, 0]\<rparr>)])
   \<and> EstrPtr_size (EstrPtr 1)
        [(1, \<lparr>needs_disposing = True, length_field = 2, hash = Some 12797, chars = [97, 100, 0]\<rparr>)]
       = Inr 2
   \<and> EstrPtr_needs_disposing (EstrPtr 1)
        [(1, \<lparr>needs_disposing = True, length_field = 2, hash = Some 12797, chars = [97, 100, 0]\<rparr>)]
       = Inr True"
proof -
  let ?d = "\<lparr>needs_disposing = True, length_field = 2, hash = Some 12797, chars = [97, 100, 0]\<rparr>"
  have le: "length [97, 100 :: byte] \<le> 2 ^ 31 - 1" by simp
  have new: "estr_new True [97, 100] [] = Inr (EstrPtr 1, [(1, ?d)])"
    by (simp add: estr_new_def estr_new_init_def EstrRawData_int_def ascii_string_hash_def
        INT_MAX_def new_char_array_def unused_address_def create_from_raw_data_def)
  note inst = length_field_31_bits[where s = "[97, 100]" and avail = True and H = "[]"
      and p = "EstrPtr 1" and H' = "[(1, ?d)]" and d = ?d and v = 0 and n = 0]
  from inst
  have "(estr_new True [97, 100] [] = Inl AllocationFailure) = (\<not> True)"
    by blast
  then have "estr_new True [97, 100] [] \<noteq> Inl AllocationFailure" by simp
  moreover from inst le
  have "estr_new True [97, 100] [] = Inl AllocationFailure
      \<or> (\<exists>e. estr_new True [97, 100] [] =
                Inr (EstrPtr (unused_address []), [(unused_address [], e)])
             \<and> unat (length_field e) = length [97, 100 :: byte] \<and> needs_disposing e)"
    by blast
  ultimately obtain e where
    "estr_new True [97, 100] [] = Inr (EstrPtr (unused_address []), [(unused_address [], e)])"
    "unat (length_field e) = length [97, 100 :: byte]" "needs_disposing e"
    by blast
  with new have "unat (length_field ?d) = 2" by simp
  moreover from inst new
  have "EstrPtr_size (EstrPtr 1) [(1, ?d)] = Inr (of_nat (length [97, 100 :: byte] mod 2 ^ 31))
      \<and> EstrPtr_needs_disposing (EstrPtr 1) [(1, ?d)] = Inr True"
    by blast
  ultimately show ?thesis using le new by simp
qed

end
